theory Spec2Isabelle
  imports Main "HOL-Library.Sublist" "HOL-Library.Monad_Syntax"
begin

section \<open>JavaScript values\<close>

text \<open>
  The bodies that the transport hands back are parsed JSON (\<open>json: true\<close>), and the code
  reads them with plain property access.  A value is one of JavaScript's primitives, an
  array or an object.  An object is the list of its own properties in insertion order
  (keys unique, as \<open>JSON.parse\<close> leaves them).  An array carries its elements and,
  because a JavaScript array is an object too, the named properties assigned to it.
  Numbers are restricted to integers; the code computes with none of them, and what it
  prints of one is left to \<open>ToString\<close> below.
\<close>

datatype json =
    JUndefined
  | JNull
  | JBool bool
  | JNum int
  | JStr string
  | JArr "json list" "(string \<times> json) list"
  | JObj "(string \<times> json) list"

text \<open>
  A rejection reason.  \<open>RequestError\<close> and \<open>StatusCodeError\<close> are the two failures of
  \<open>request-promise\<close> (no response; a response outside 2xx, with its status and body).
  \<open>TypeError\<close> is what the engine throws on reading a property of \<open>undefined\<close> or
  \<open>null\<close>, and in strict mode on assigning a property to a primitive.
\<close>

datatype error =
    RequestError string
  | StatusCodeError int json
  | TypeError

text \<open>A settled promise.\<close>

datatype 'a settled = Fulfilled 'a | Rejected error

text \<open>
  \<open>v.k\<close> for the property names the code reads (\<open>d\<close>, \<open>results\<close>, \<open>__next\<close>, \<open>Id\<close>,
  \<open>expiresOn\<close>): none of them lives on a prototype, so a primitive or an object without
  the key gives \<open>undefined\<close>; \<open>undefined\<close> and \<open>null\<close> throw.
\<close>

fun Get :: "json \<Rightarrow> string \<Rightarrow> error + json" where
  "Get JUndefined k = Inl TypeError"
| "Get JNull k = Inl TypeError"
| "Get (JObj ps) k = Inr (case map_of ps k of None \<Rightarrow> JUndefined | Some v \<Rightarrow> v)"
| "Get (JArr xs ps) k = Inr (case map_of ps k of None \<Rightarrow> JUndefined | Some v \<Rightarrow> v)"
| "Get v k = Inr JUndefined"

text \<open>
  \<open>v.k = x\<close> under \<open>"use strict"\<close>: an object or array takes the property (an existing
  key keeps its place, a new one goes last), anything else throws.
\<close>

fun update_prop :: "string \<Rightarrow> json \<Rightarrow> (string \<times> json) list \<Rightarrow> (string \<times> json) list" where
  "update_prop k x [] = [(k, x)]"
| "update_prop k x (p # ps) = (if fst p = k then (k, x) # ps else p # update_prop k x ps)"

fun Put :: "json \<Rightarrow> string \<Rightarrow> json \<Rightarrow> error + json" where
  "Put (JObj ps) k x = Inr (JObj (update_prop k x ps))"
| "Put (JArr xs ps) k x = Inr (JArr xs (update_prop k x ps))"
| "Put v k x = Inl TypeError"

text \<open>The truthiness test of \<open>if (v)\<close>.\<close>

fun ToBoolean :: "json \<Rightarrow> bool" where
  "ToBoolean JUndefined = False"
| "ToBoolean JNull = False"
| "ToBoolean (JBool b) = b"
| "ToBoolean (JNum n) = (n \<noteq> 0)"
| "ToBoolean (JStr s) = (s \<noteq> [])"
| "ToBoolean (JArr xs ps) = True"
| "ToBoolean (JObj ps) = True"

text \<open>
  \<open>finalArray.concat(part)\<close>: an array argument is spread one level, any other value is
  appended as a single element.
\<close>

fun concat_js :: "json list \<Rightarrow> json \<Rightarrow> json list" where
  "concat_js finalArray (JArr part ps) = finalArray @ part"
| "concat_js finalArray part = finalArray @ [part]"

text \<open>
  \<open>`${v}`\<close>, the text of a value inside a template literal, is JavaScript's \<open>ToString\<close>.
  It is taken as a parameter of the operations that print an item's \<open>Id\<close>: the text it
  gives, or the \<open>TypeError\<close> it throws (an object whose own \<open>toString\<close> cannot be
  called).
\<close>

type_synonym to_string = "json \<Rightarrow> error + string"

section \<open>The transport\<close>

text \<open>
  \<open>rp\<close> (request-promise) is the environment: given the options of one GET it settles
  with the parsed body, settles with a failure, or never settles (\<open>None\<close>).
\<close>

record headers =
  Accept :: string
  Authorization :: string

record rp_options =
  uri :: json
  headers :: headers
  strictSSL :: bool
  json :: bool

type_synonym transport = "rp_options \<Rightarrow> json settled option"

definition request :: "json \<Rightarrow> string \<Rightarrow> rp_options" where
  "request apiUrl accessToken =
     \<lparr>uri = apiUrl,
      headers = \<lparr>Accept = ''application/json;odata=verbose'',
                 Authorization = ''Bearer '' @ accessToken\<rparr>,
      strictSSL = False,
      json = True\<rparr>"

text \<open>\<open>apiResponse.d.results\<close> and \<open>apiResponse.d.__next\<close>, with the throw of each dot.\<close>

definition d_results :: "json \<Rightarrow> error + json" where
  "d_results apiResponse =
     (case Get apiResponse ''d'' of Inl e \<Rightarrow> Inl e | Inr d \<Rightarrow> Get d ''results'')"

definition d_next :: "json \<Rightarrow> error + json" where
  "d_next apiResponse =
     (case Get apiResponse ''d'' of Inl e \<Rightarrow> Inl e | Inr d \<Rightarrow> Get d ''__next'')"

section \<open>sharepoint-lists: the page fetcher\<close>

text \<open>
  \<open>getArrayRecursively\<close> returns the requests it issued, in order, and how its promise
  settles.  \<open>None\<close> is a promise that never settles: a request without an answer, or a
  server whose pages never stop pointing to a next one.  The second \<open>then\<close> folds the
  parts with \<open>concat\<close>, from the empty array.
\<close>

definition merge_parts :: "json list \<Rightarrow> json list" where
  "merge_parts responses = foldl concat_js [] responses"

partial_function (option) getArrayRecursively ::
  "transport \<Rightarrow> json \<Rightarrow> string \<Rightarrow> (rp_options list \<times> json list settled) option"
where
  "getArrayRecursively rp apiUrl accessToken =
     Option.bind (rp (request apiUrl accessToken)) (\<lambda>reply.
       case reply of
         Rejected e \<Rightarrow> Some ([request apiUrl accessToken], Rejected e)
       | Fulfilled apiResponse \<Rightarrow>
           (case d_results apiResponse of
              Inl e \<Rightarrow> Some ([request apiUrl accessToken], Rejected e)
            | Inr results \<Rightarrow>
                (case d_next apiResponse of
                   Inl e \<Rightarrow> Some ([request apiUrl accessToken], Rejected e)
                 | Inr nxt \<Rightarrow>
                     if ToBoolean nxt then
                       Option.bind (getArrayRecursively rp nxt accessToken) (\<lambda>rest.
                         Some (request apiUrl accessToken # fst rest,
                               case snd rest of
                                 Rejected e \<Rightarrow> Rejected e
                               | Fulfilled part \<Rightarrow>
                                   Fulfilled (merge_parts [results, JArr part []])))
                     else Some ([request apiUrl accessToken],
                                Fulfilled (merge_parts [results])))))"

declare getArrayRecursively.simps [code]

text \<open>The public list operations build a URL and hand it to the page fetcher.\<close>

definition findAllLists ::
  "transport \<Rightarrow> string \<Rightarrow> string \<Rightarrow> string \<Rightarrow> (rp_options list \<times> json list settled) option"
where
  "findAllLists rp sharepointResourceUrl siteName accessToken =
     getArrayRecursively rp
       (JStr (sharepointResourceUrl @ ''/sites/'' @ siteName @ ''/_api/Web/Lists''))
       accessToken"

definition getList ::
  "transport \<Rightarrow> string \<Rightarrow> string \<Rightarrow> string \<Rightarrow> string
     \<Rightarrow> (rp_options list \<times> json list settled) option"
where
  "getList rp sharepointResourceUrl siteName listGuid accessToken =
     getArrayRecursively rp
       (JStr (sharepointResourceUrl @ ''/sites/'' @ siteName @ ''/_api/Web/Lists(guid''
              @ [CHR 0x27] @ listGuid @ [CHR 0x27] @ '')/Items''))
       accessToken"

text \<open>
  \<open>getListAttachmentFiles\<close> prints \<open>listItemId\<close> into the address; a throw of that
  happens before any request.
\<close>

definition getListAttachmentFiles ::
  "transport \<Rightarrow> to_string \<Rightarrow> string \<Rightarrow> string \<Rightarrow> string \<Rightarrow> json \<Rightarrow> string
     \<Rightarrow> error + (rp_options list \<times> json list settled) option"
where
  "getListAttachmentFiles rp ToString sharepointResourceUrl siteName listGuid listItemId
       accessToken =
     (case ToString listItemId of
        Inl e \<Rightarrow> Inl e
      | Inr itemText \<Rightarrow>
          Inr (getArrayRecursively rp
                 (JStr (sharepointResourceUrl @ ''/sites/'' @ siteName
                        @ ''/_api/Web/Lists(guid'' @ [CHR 0x27] @ listGuid @ [CHR 0x27]
                        @ '')/Items('' @ itemText @ '')/AttachmentFiles''))
                 accessToken))"

definition getListItemAttachmentFileUrl ::
  "to_string \<Rightarrow> string \<Rightarrow> string \<Rightarrow> string \<Rightarrow> json \<Rightarrow> string \<Rightarrow> error + string"
where
  "getListItemAttachmentFileUrl ToString sharepointResourceUrl siteName listGuid listItemId
       attachmentFilename =
     (case ToString listItemId of
        Inl e \<Rightarrow> Inl e
      | Inr itemText \<Rightarrow>
          Inr (sharepointResourceUrl @ ''/sites/'' @ siteName @ ''/_api/Web/Lists(guid''
               @ [CHR 0x27] @ listGuid @ [CHR 0x27] @ '')/Items('' @ itemText
               @ '')/AttachmentFiles('' @ [CHR 0x27] @ attachmentFilename @ [CHR 0x27]
               @ '')/$value''))"

section \<open>sharepoint-lists: the fan-out over the list items\<close>

text \<open>
  \<open>sharepointList.map(callback)\<close> runs the callback on the items from left to right
  and stops at the first throw.
\<close>

fun map_throw :: "('a \<Rightarrow> error + 'b) \<Rightarrow> 'a list \<Rightarrow> error + 'b list" where
  "map_throw f [] = Inr []"
| "map_throw f (x # xs) =
     (case f x of
        Inl e \<Rightarrow> Inl e
      | Inr y \<Rightarrow> (case map_throw f xs of Inl e \<Rightarrow> Inl e | Inr ys \<Rightarrow> Inr (y # ys)))"

text \<open>
  The first half of the callback: read \<open>sharepointListItem.Id\<close> (a throw on \<open>null\<close> or
  \<open>undefined\<close>) and start the item's fetch (a throw when the \<open>Id\<close> cannot be printed).
  The value is how that fetch settles, if it does.
\<close>

definition subFetch ::
  "transport \<Rightarrow> to_string \<Rightarrow> string \<Rightarrow> string \<Rightarrow> string \<Rightarrow> string \<Rightarrow> json
     \<Rightarrow> error + json list settled option"
where
  "subFetch rp ToString sharepointResourceUrl siteName listGuid accessToken sharepointListItem =
     (case Get sharepointListItem ''Id'' of
        Inl e \<Rightarrow> Inl e
      | Inr listItemId \<Rightarrow>
          (case getListAttachmentFiles rp ToString sharepointResourceUrl siteName listGuid
                  listItemId accessToken of
             Inl e \<Rightarrow> Inl e
           | Inr fetch \<Rightarrow> Inr (map_option snd fetch)))"

text \<open>
  The second half runs when the item's fetch settles, and the fetches settle in an order
  the code does not choose: \<open>order\<close> lists the indices of the sub-promises in the order
  in which they settle.  A fulfilled fetch assigns \<open>AttachmentFiles\<close> on its item, in
  place; a throw of that assignment rejects the sub-promise.  \<open>Promise.all\<close> rejects with
  the first rejection in time.  An index outside the list, or of a fetch that never
  settles, is no event.  The items are objects of their own, fresh from the parser, so
  an assignment to one is an update at its index.
\<close>

fun settle_all ::
  "nat list \<Rightarrow> json list settled option list \<Rightarrow> json list \<Rightarrow> error + json list"
where
  "settle_all [] subs sharepointList = Inr sharepointList"
| "settle_all (i # order) subs sharepointList =
     (if i < length sharepointList \<and> i < length subs then
        (case subs ! i of
           None \<Rightarrow> settle_all order subs sharepointList
         | Some (Rejected e) \<Rightarrow> Inl e
         | Some (Fulfilled attachmentFiles) \<Rightarrow>
             (case Put (sharepointList ! i) ''AttachmentFiles'' (JArr attachmentFiles []) of
                Inl e \<Rightarrow> Inl e
              | Inr sharepointListItem \<Rightarrow>
                  settle_all order subs (sharepointList[i := sharepointListItem])))
      else settle_all order subs sharepointList)"

text \<open>
  \<open>getListWithAttachmentFiles\<close>: how the returned promise settles (\<open>None\<close>: never).  A
  throw inside \<open>map\<close> rejects it at once.  Otherwise it rejects with the first rejection
  among the sub-promises, and it fulfils with the list, as the assignments left it, once
  every sub-promise has fulfilled.
\<close>

definition getListWithAttachmentFiles ::
  "transport \<Rightarrow> to_string \<Rightarrow> nat list \<Rightarrow> string \<Rightarrow> string \<Rightarrow> string \<Rightarrow> string
     \<Rightarrow> json list settled option"
where
  "getListWithAttachmentFiles rp ToString order sharepointResourceUrl siteName listGuid
       accessToken =
     (case getList rp sharepointResourceUrl siteName listGuid accessToken of
        None \<Rightarrow> None
      | Some fetched \<Rightarrow>
          (case snd fetched of
             Rejected e \<Rightarrow> Some (Rejected e)
           | Fulfilled sharepointList \<Rightarrow>
               (case map_throw (subFetch rp ToString sharepointResourceUrl siteName listGuid
                                  accessToken)
                       sharepointList of
                  Inl e \<Rightarrow> Some (Rejected e)
                | Inr subs \<Rightarrow>
                    (case settle_all order subs sharepointList of
                       Inl e \<Rightarrow> Some (Rejected e)
                     | Inr attached \<Rightarrow>
                         if None \<in> set subs then None else Some (Fulfilled attached)))))"

section \<open>sharepoint-files\<close>

text \<open>
  \<open>callApi\<close> issues one request and maps its answer to \<open>apiResponse.d.results\<close>.  It is
  not recursive, so the requests are known even when the answer never comes.
\<close>

definition callApi :: "transport \<Rightarrow> string \<Rightarrow> string \<Rightarrow> rp_options list \<times> json settled option"
where
  "callApi rp apiUrl accessToken =
     ([request (JStr apiUrl) accessToken],
      (case rp (request (JStr apiUrl) accessToken) of
         None \<Rightarrow> None
       | Some (Rejected e) \<Rightarrow> Some (Rejected e)
       | Some (Fulfilled apiResponse) \<Rightarrow>
           (case d_results apiResponse of
              Inl e \<Rightarrow> Some (Rejected e)
            | Inr results \<Rightarrow> Some (Fulfilled results))))"

text \<open>\<open>folderPath.indexOf(s) === 0\<close> holds exactly when \<open>s\<close> is a prefix of \<open>folderPath\<close>.\<close>

definition folder_path :: "string \<Rightarrow> string \<Rightarrow> string" where
  "folder_path siteName folderPath =
     (if prefix (''/sites/'' @ siteName) folderPath then ''''
      else ''/sites/'' @ siteName @ ''/'') @ folderPath"

definition getSubfolders ::
  "transport \<Rightarrow> string \<Rightarrow> string \<Rightarrow> string \<Rightarrow> string
     \<Rightarrow> rp_options list \<times> json settled option"
where
  "getSubfolders rp sharepointResourceUrl siteName folderPath accessToken =
     callApi rp
       (sharepointResourceUrl @ ''/sites/'' @ siteName
          @ ''/_api/Web/GetFolderByServerRelativeUrl('' @ [CHR 0x27]
          @ folder_path siteName folderPath @ [CHR 0x27] @ '')/Folders'')
       accessToken"

definition getFiles ::
  "transport \<Rightarrow> string \<Rightarrow> string \<Rightarrow> string \<Rightarrow> string
     \<Rightarrow> rp_options list \<times> json settled option"
where
  "getFiles rp sharepointResourceUrl siteName folderPath accessToken =
     callApi rp
       (sharepointResourceUrl @ ''/sites/'' @ siteName
          @ ''/_api/Web/GetFolderByServerRelativeUrl('' @ [CHR 0x27]
          @ folder_path siteName folderPath @ [CHR 0x27] @ '')/Files'')
       accessToken"

section \<open>sharepoint-token\<close>

text \<open>
  A Bluebird promise is pending, fulfilled, rejected or cancelled.  The module keeps one
  variable, \<open>tokenRequestPromise\<close>: \<open>null\<close> or a promise.  A promise is an object with
  an identity; the identity is the number of the acquisition that made it.  Only the
  promise in the variable is ever inspected, so its state is kept with it, and the
  environment changes it when the acquisition settles.
\<close>

datatype status = Pending | Settled "json settled" | Cancelled

record promise =
  ident :: nat
  state :: status

fun isRejected :: "promise \<Rightarrow> bool" where
  "isRejected p = (case state p of Settled (Rejected e) \<Rightarrow> True | _ \<Rightarrow> False)"

fun isCancelled :: "promise \<Rightarrow> bool" where
  "isCancelled p = (state p = Cancelled)"

record SharepointSourceConfig =
  sharepointAuthorityHostUrl :: string
  sharepointTenant :: string
  sharepointResourceUrl :: string
  sharepointClientId :: string
  sharepointUserId :: string
  sharepointUserSecret :: string

text \<open>
  One call of \<open>acquireTokenWithUsernamePasswordAsync\<close>: the authority of the context it
  is called on, and its four arguments.
\<close>

record acquisition =
  authority :: string
  resource :: string
  username :: string
  password :: string
  clientId :: string

definition acquireTokenWithUsernamePassword :: "SharepointSourceConfig \<Rightarrow> acquisition" where
  "acquireTokenWithUsernamePassword sharepointConfig =
     \<lparr>authority = sharepointAuthorityHostUrl sharepointConfig @ ''/''
                    @ sharepointTenant sharepointConfig,
      resource = sharepointResourceUrl sharepointConfig,
      username = sharepointUserId sharepointConfig,
      password = sharepointUserSecret sharepointConfig,
      clientId = sharepointClientId sharepointConfig\<rparr>"

record token_service =
  tokenRequestPromise :: "promise option"
  issued :: "acquisition list"

text \<open>
  \<open>tokenExpired\<close>: \<open>now > Date.parse(value.expiresOn) + 30000\<close>.  \<open>Date.parse\<close> is taken
  as a parameter, in milliseconds, with \<open>None\<close> for \<open>NaN\<close>, which compares false.  Reading
  \<open>expiresOn\<close> of an \<open>undefined\<close> or \<open>null\<close> value throws.
\<close>

definition tokenExpired :: "(json \<Rightarrow> int option) \<Rightarrow> int \<Rightarrow> json \<Rightarrow> error + bool" where
  "tokenExpired Date_parse now v =
     (case Get v ''expiresOn'' of
        Inl e \<Rightarrow> Inl e
      | Inr expiresOn \<Rightarrow>
          Inr (case Date_parse expiresOn of None \<Rightarrow> False | Some t \<Rightarrow> now > t + 30000))"

text \<open>
  The first \<open>if\<close> of \<open>getToken\<close>: the variable after the expiry check.
  \<open>isFulfilled()\<close> holds of a promise in state \<open>Settled (Fulfilled v)\<close>, and \<open>value()\<close>
  is then \<open>v\<close>.
\<close>

definition expire :: "(json \<Rightarrow> int option) \<Rightarrow> int \<Rightarrow> promise option \<Rightarrow> error + promise option"
where
  "expire Date_parse now slot =
     (case slot of
        None \<Rightarrow> Inr None
      | Some p \<Rightarrow>
          (case state p of
             Settled (Fulfilled v) \<Rightarrow>
               (case tokenExpired Date_parse now v of
                  Inl e \<Rightarrow> Inl e
                | Inr expired \<Rightarrow> Inr (if expired then None else Some p))
           | _ \<Rightarrow> Inr (Some p)))"

text \<open>
  The call of \<open>acquireTokenWithUsernamePasswordAsync\<close> inside \<open>getToken\<close>: the
  acquisition is logged and its promise, pending, goes into the variable.  A promise that
  has settled by the time anyone looks at it is this one followed by \<open>settle\<close>.
\<close>

definition acquire :: "SharepointSourceConfig \<Rightarrow> token_service \<Rightarrow> promise \<times> token_service" where
  "acquire sharepointConfig s =
     (let p = \<lparr>ident = length (issued s), state = Pending\<rparr>
      in (p, \<lparr>tokenRequestPromise = Some p,
               issued = issued s @ [acquireTokenWithUsernamePassword sharepointConfig]\<rparr>))"

text \<open>
  \<open>getToken\<close> at clock reading \<open>now\<close>: the promise it returns and the module after the
  call, or the error it throws.
\<close>

definition getToken ::
  "(json \<Rightarrow> int option) \<Rightarrow> SharepointSourceConfig \<Rightarrow> int \<Rightarrow> token_service
     \<Rightarrow> error + promise \<times> token_service"
where
  "getToken Date_parse sharepointConfig now s =
     (case expire Date_parse now (tokenRequestPromise s) of
        Inl e \<Rightarrow> Inl e
      | Inr None \<Rightarrow> Inr (acquire sharepointConfig s)
      | Inr (Some p) \<Rightarrow>
          if isCancelled p \<or> isRejected p then Inr (acquire sharepointConfig s)
          else Inr (p, s\<lparr>tokenRequestPromise := Some p\<rparr>))"

definition dropToken :: "token_service \<Rightarrow> token_service" where
  "dropToken s = s\<lparr>tokenRequestPromise := None\<rparr>"

text \<open>The environment settles or cancels the pending promise in the variable.\<close>

definition settle :: "status \<Rightarrow> token_service \<Rightarrow> token_service" where
  "settle st s =
     (case tokenRequestPromise s of
        None \<Rightarrow> s
      | Some p \<Rightarrow>
          if state p = Pending then s\<lparr>tokenRequestPromise := Some (p\<lparr>state := st\<rparr>)\<rparr> else s)"

text \<open>Calls of \<open>getToken\<close> one after the other, with nothing in between but the clock.\<close>

fun getTokens ::
  "(json \<Rightarrow> int option) \<Rightarrow> SharepointSourceConfig \<Rightarrow> int list \<Rightarrow> token_service
     \<Rightarrow> error + promise list \<times> token_service"
where
  "getTokens Date_parse sharepointConfig [] s = Inr ([], s)"
| "getTokens Date_parse sharepointConfig (now # nows) s =
     (case getToken Date_parse sharepointConfig now s of
        Inl e \<Rightarrow> Inl e
      | Inr (p, s') \<Rightarrow>
          (case getTokens Date_parse sharepointConfig nows s' of
             Inl e \<Rightarrow> Inl e
           | Inr (ps, s'') \<Rightarrow> Inr (p # ps, s'')))"

section \<open>What a server serves\<close>

text \<open>
  The answer to a request depends on the request alone.  \<open>page\<close> says that the request
  for \<open>apiUrl\<close> is answered with an envelope whose \<open>d.results\<close> is \<open>results\<close> and whose
  \<open>d.__next\<close> is \<open>nxt\<close> (\<open>undefined\<close> when the envelope has none).
\<close>

definition page :: "transport \<Rightarrow> string \<Rightarrow> json \<Rightarrow> json \<Rightarrow> json \<Rightarrow> bool" where
  "page rp accessToken apiUrl results nxt =
     (case rp (request apiUrl accessToken) of
        Some (Fulfilled apiResponse) \<Rightarrow>
          d_results apiResponse = Inr results \<and> d_next apiResponse = Inr nxt
      | _ \<Rightarrow> False)"

text \<open>
  \<open>serves\<close>: from \<open>apiUrl\<close> on the server holds exactly the given pages, each with its
  items and its \<open>__next\<close>; every page but the last points to the next one, the last one
  points nowhere.
\<close>

fun serves :: "transport \<Rightarrow> string \<Rightarrow> json \<Rightarrow> (json list \<times> json) list \<Rightarrow> bool" where
  "serves rp accessToken apiUrl [] = False"
| "serves rp accessToken apiUrl [(items, nxt)] =
     (page rp accessToken apiUrl (JArr items []) nxt \<and> \<not> ToBoolean nxt)"
| "serves rp accessToken apiUrl ((items, nxt) # pg # pgs) =
     (page rp accessToken apiUrl (JArr items []) nxt \<and> ToBoolean nxt
      \<and> serves rp accessToken nxt (pg # pgs))"

text \<open>
  \<open>chain\<close>: from \<open>apiUrl\<close> on the server answers with the given pages, whatever their
  \<open>results\<close>, and each of them points to a next one.  \<open>chain_urls\<close> are the addresses
  this visits, the last being the one the last page points to.
\<close>

fun chain :: "transport \<Rightarrow> string \<Rightarrow> json \<Rightarrow> (json \<times> json) list \<Rightarrow> bool" where
  "chain rp accessToken apiUrl [] = True"
| "chain rp accessToken apiUrl ((results, nxt) # pgs) =
     (page rp accessToken apiUrl results nxt \<and> ToBoolean nxt \<and> chain rp accessToken nxt pgs)"

fun chain_urls :: "json \<Rightarrow> (json \<times> json) list \<Rightarrow> json list" where
  "chain_urls apiUrl [] = [apiUrl]"
| "chain_urls apiUrl ((results, nxt) # pgs) = apiUrl # chain_urls nxt pgs"

section \<open>Fixtures\<close>

text \<open>A list of two pages.\<close>

definition rp2 :: transport where
  "rp2 opts =
     (if opts = request (JStr ''https://sp/items'') ''tok'' then
        Some (Fulfilled (JObj [(''d'', JObj [(''results'', JArr [JNum 1, JNum 2] []),
                                             (''__next'', JStr ''https://sp/items?p=2'')])]))
      else if opts = request (JStr ''https://sp/items?p=2'') ''tok'' then
        Some (Fulfilled (JObj [(''d'', JObj [(''results'', JArr [JNum 3] [])])]))
      else Some (Rejected (StatusCodeError 404 JNull)))"

text \<open>An envelope whose \<open>d\<close> has no \<open>results\<close>.\<close>

definition rp3 :: transport where
  "rp3 opts = Some (Fulfilled (JObj [(''d'', JObj [])]))"

text \<open>A second page that answers 503, and a body \<open>null\<close> everywhere else.\<close>

definition rp4 :: transport where
  "rp4 opts =
     (if opts = request (JStr ''https://sp/items'') ''tok'' then
        Some (Fulfilled (JObj [(''d'', JObj [(''results'', JArr [JNum 1, JNum 2] []),
                                             (''__next'', JStr ''https://sp/items?p=2'')])]))
      else if opts = request (JStr ''https://sp/items?p=2'') ''tok'' then
        Some (Rejected (StatusCodeError 503 (JStr ''busy'')))
      else Some (Fulfilled JNull))"

text \<open>A folder whose files span two pages.\<close>

definition files_url :: string where
  "files_url = ''https://sp/sites/s/_api/Web/GetFolderByServerRelativeUrl('' @ [CHR 0x27]
                 @ ''/sites/s/Docs'' @ [CHR 0x27] @ '')/Files''"

definition rp5 :: transport where
  "rp5 opts =
     (if uri opts = JStr files_url then
        Some (Fulfilled (JObj [(''d'', JObj [(''results'', JArr [JStr ''a.txt'', JStr ''b.txt''] []),
                                             (''__next'', JStr ''https://sp/more'')])]))
      else if uri opts = JStr ''https://sp/more'' then
        Some (Fulfilled (JObj [(''d'', JObj [(''results'', JArr [JStr ''c.txt''] [])])]))
      else Some (Rejected (StatusCodeError 404 JNull)))"

text \<open>
  A list of three items on two pages, with two, no and one attachment; and the same
  server with the attachments of item 2 unreachable.
\<close>

definition items_url :: string where
  "items_url = ''https://sp/sites/s/_api/Web/Lists(guid'' @ [CHR 0x27] @ ''g'' @ [CHR 0x27]
                 @ '')/Items''"

definition rp6 :: transport where
  "rp6 opts =
     (if uri opts = JStr items_url then
        Some (Fulfilled (JObj [(''d'', JObj
          [(''results'', JArr [JObj [(''Id'', JNum 1), (''Title'', JStr ''one'')],
                               JObj [(''Id'', JNum 2), (''Title'', JStr ''two'')]] []),
           (''__next'', JStr ''https://sp/next'')])]))
      else if uri opts = JStr ''https://sp/next'' then
        Some (Fulfilled (JObj [(''d'', JObj
          [(''results'', JArr [JObj [(''Id'', JNum 3), (''Title'', JStr ''three'')]] [])])]))
      else if uri opts = JStr (items_url @ ''(1)/AttachmentFiles'') then
        Some (Fulfilled (JObj [(''d'', JObj
          [(''results'', JArr [JStr ''a.pdf'', JStr ''b.pdf''] [])])]))
      else if uri opts = JStr (items_url @ ''(2)/AttachmentFiles'') then
        Some (Fulfilled (JObj [(''d'', JObj [(''results'', JArr [] [])])]))
      else if uri opts = JStr (items_url @ ''(3)/AttachmentFiles'') then
        Some (Fulfilled (JObj [(''d'', JObj [(''results'', JArr [JStr ''c.pdf''] [])])]))
      else Some (Rejected (StatusCodeError 404 JNull)))"

text \<open>A \<open>ToString\<close> that knows the three \<open>Id\<close>s of the list.\<close>

definition ToString0 :: to_string where
  "ToString0 v =
     (if v = JNum 1 then Inr ''1''
      else if v = JNum 2 then Inr ''2''
      else if v = JNum 3 then Inr ''3''
      else Inl TypeError)"

definition rp7 :: transport where
  "rp7 opts =
     (if uri opts = JStr (items_url @ ''(2)/AttachmentFiles'') then
        Some (Rejected (RequestError ''ECONNRESET''))
      else rp6 opts)"

text \<open>
  A configuration, a token that expires on 16 June 2016 at noon (UTC), a \<open>Date.parse\<close>
  that knows this one date, and the module holding that token.
\<close>

definition cfg0 :: SharepointSourceConfig where
  "cfg0 = \<lparr>sharepointAuthorityHostUrl = ''https://login.microsoftonline.com'',
           sharepointTenant = ''tenant'',
           sharepointResourceUrl = ''https://sp.example.com'',
           sharepointClientId = ''client'',
           sharepointUserId = ''user'',
           sharepointUserSecret = ''secret''\<rparr>"

definition token0 :: json where
  "token0 = JObj [(''tokenType'', JStr ''Bearer''), (''accessToken'', JStr ''abc''),
                  (''expiresOn'', JStr ''2016-06-16T12:00:00.000Z'')]"

definition Date_parse0 :: "json \<Rightarrow> int option" where
  "Date_parse0 x = (if x = JStr ''2016-06-16T12:00:00.000Z'' then Some 1466078400000 else None)"

definition service0 :: "status \<Rightarrow> token_service" where
  "service0 st = \<lparr>tokenRequestPromise = Some \<lparr>ident = 0, state = st\<rparr>,
                  issued = [acquireTokenWithUsernamePassword cfg0]\<rparr>"

definition service1 :: token_service where
  "service1 = \<lparr>tokenRequestPromise = Some \<lparr>ident = 1, state = Pending\<rparr>,
               issued = [acquireTokenWithUsernamePassword cfg0,
                         acquireTokenWithUsernamePassword cfg0]\<rparr>"

section \<open>The page fetcher follows every page\<close>

lemma merge_parts_one: "merge_parts [results] = concat_js [] results"
  by (simp add: merge_parts_def)

lemma merge_parts_two: "merge_parts [results, JArr part ps] = concat_js [] results @ part"
  by (simp add: merge_parts_def)

lemma page_reply:
  "page rp accessToken apiUrl results nxt \<Longrightarrow>
     \<exists>apiResponse. rp (request apiUrl accessToken) = Some (Fulfilled apiResponse)
       \<and> d_results apiResponse = Inr results \<and> d_next apiResponse = Inr nxt"
  by (auto simp: page_def split: option.splits settled.splits)

lemma fetch_last:
  "page rp accessToken apiUrl results nxt \<Longrightarrow> \<not> ToBoolean nxt \<Longrightarrow>
     getArrayRecursively rp apiUrl accessToken
       = Some ([request apiUrl accessToken], Fulfilled (concat_js [] results))"
  by (subst getArrayRecursively.simps) (auto dest!: page_reply simp: merge_parts_one)

lemma fetch_next:
  "page rp accessToken apiUrl results nxt \<Longrightarrow> ToBoolean nxt \<Longrightarrow>
     getArrayRecursively rp apiUrl accessToken
       = Option.bind (getArrayRecursively rp nxt accessToken) (\<lambda>rest.
           Some (request apiUrl accessToken # fst rest,
                 case snd rest of
                   Rejected e \<Rightarrow> Rejected e
                 | Fulfilled part \<Rightarrow> Fulfilled (concat_js [] results @ part)))"
  by (subst getArrayRecursively.simps)
     (auto dest!: page_reply simp: merge_parts_two cong: settled.case_cong)

lemma fetch_rejected:
  "rp (request apiUrl accessToken) = Some (Rejected e) \<Longrightarrow>
     getArrayRecursively rp apiUrl accessToken = Some ([request apiUrl accessToken], Rejected e)"
  by (subst getArrayRecursively.simps) simp

lemma fetch_throws:
  "rp (request apiUrl accessToken) = Some (Fulfilled apiResponse) \<Longrightarrow>
   d_results apiResponse = Inl e \<Longrightarrow>
     getArrayRecursively rp apiUrl accessToken = Some ([request apiUrl accessToken], Rejected e)"
  by (subst getArrayRecursively.simps) simp

text \<open>
  C1.  When the server serves \<open>N\<close> pages from \<open>apiUrl\<close>, the first \<open>N - 1\<close> with a
  continuation pointer and the last without, \<open>getArrayRecursively\<close> settles, fulfilled
  with the items of page 1, then those of page 2, and so on: nothing reordered, dropped
  or added, so their number is the sum of the page sizes.  It issues one request per
  page, in page order.
\<close>

theorem getArrayRecursively_pages:
  assumes "serves rp accessToken apiUrl pages"
  shows "getArrayRecursively rp apiUrl accessToken
           = Some (map (\<lambda>u. request u accessToken) (apiUrl # map snd (butlast pages)),
                   Fulfilled (concat (map fst pages)))
         \<and> length (concat (map fst pages)) = sum_list (map (\<lambda>pg. length (fst pg)) pages)"
proof
  from assms show "getArrayRecursively rp apiUrl accessToken
           = Some (map (\<lambda>u. request u accessToken) (apiUrl # map snd (butlast pages)),
                   Fulfilled (concat (map fst pages)))"
  proof (induction rp accessToken apiUrl pages rule: serves.induct)
    case (1 rp accessToken apiUrl)
    then show ?case by simp
  next
    case (2 rp accessToken apiUrl items nxt)
    then show ?case
      using fetch_last [of rp accessToken apiUrl "JArr items []" nxt] by simp
  next
    case (3 rp accessToken apiUrl items nxt pg pgs)
    then show ?case
      using fetch_next [of rp accessToken apiUrl "JArr items []" nxt] by simp
  qed
  show "length (concat (map fst pages)) = sum_list (map (\<lambda>pg. length (fst pg)) pages)"
    by (simp add: length_concat comp_def)
qed

theorem getArrayRecursively_pages_witness:
  "serves rp2 ''tok'' (JStr ''https://sp/items'')
      [([JNum 1, JNum 2], JStr ''https://sp/items?p=2''), ([JNum 3], JUndefined)]
   \<and> getArrayRecursively rp2 (JStr ''https://sp/items'') ''tok''
       = Some ([request (JStr ''https://sp/items'') ''tok'',
                request (JStr ''https://sp/items?p=2'') ''tok''],
               Fulfilled [JNum 1, JNum 2, JNum 3])"
proof -
  have h: "serves rp2 ''tok'' (JStr ''https://sp/items'')
      [([JNum 1, JNum 2], JStr ''https://sp/items?p=2''), ([JNum 3], JUndefined)]"
    by (simp add: page_def rp2_def request_def d_results_def d_next_def)
  show ?thesis
    using h getArrayRecursively_pages [OF h] by simp
qed

text \<open>
  C8.  A single page without a continuation pointer: \<open>getArrayRecursively\<close> fulfils with
  that page's items as they are and issues the one request, no follow-up.
\<close>

theorem getArrayRecursively_single_page:
  assumes "page rp accessToken apiUrl (JArr items ps) nxt" and "\<not> ToBoolean nxt"
  shows "getArrayRecursively rp apiUrl accessToken
           = Some ([request apiUrl accessToken], Fulfilled items)"
  using fetch_last [OF assms] by simp

theorem getArrayRecursively_single_page_witness:
  "page rp2 ''tok'' (JStr ''https://sp/items?p=2'') (JArr [JNum 3] []) JUndefined
   \<and> \<not> ToBoolean JUndefined
   \<and> getArrayRecursively rp2 (JStr ''https://sp/items?p=2'') ''tok''
       = Some ([request (JStr ''https://sp/items?p=2'') ''tok''], Fulfilled [JNum 3])"
proof -
  have h: "page rp2 ''tok'' (JStr ''https://sp/items?p=2'') (JArr [JNum 3] []) JUndefined"
    by (simp add: page_def rp2_def request_def d_results_def d_next_def)
  have f: "\<not> ToBoolean JUndefined" by simp
  show ?thesis
    using h f getArrayRecursively_single_page [OF h f] by simp
qed

section \<open>Failures of a page fetch\<close>

lemma fetch_chain:
  "chain rp accessToken apiUrl pgs \<Longrightarrow>
   getArrayRecursively rp (last (chain_urls apiUrl pgs)) accessToken
     = Some ([request (last (chain_urls apiUrl pgs)) accessToken], Rejected e) \<Longrightarrow>
   getArrayRecursively rp apiUrl accessToken
     = Some (map (\<lambda>u. request u accessToken) (chain_urls apiUrl pgs), Rejected e)"
proof (induction rp accessToken apiUrl pgs rule: chain.induct)
  case (1 rp accessToken apiUrl)
  then show ?case by simp
next
  case (2 rp accessToken apiUrl results nxt pgs)
  have ne: "chain_urls nxt pgs \<noteq> []" by (cases pgs) auto
  from 2 show ?case
    using fetch_next [of rp accessToken apiUrl results nxt] ne by simp
qed

lemma d_results_throws:
  "apiResponse = JUndefined \<or> apiResponse = JNull
     \<or> Get apiResponse ''d'' = Inr JUndefined \<or> Get apiResponse ''d'' = Inr JNull
   \<Longrightarrow> d_results apiResponse = Inl TypeError"
  by (auto simp: d_results_def)

text \<open>
  C9, as the code has it.  After any number of pages that point on, a request that the
  transport rejects (no response, a status outside 2xx) rejects the whole fetch with that
  very reason, and a body that is \<open>undefined\<close> or \<open>null\<close>, or whose \<open>d\<close> is, rejects it
  with a \<open>TypeError\<close>.  Either way the requests are those of the pages, each once, ending
  with the failed one, and no items come back.
\<close>

theorem getArrayRecursively_failure:
  assumes "chain rp accessToken apiUrl pgs"
  shows "(rp (request (last (chain_urls apiUrl pgs)) accessToken) = Some (Rejected e) \<longrightarrow>
            getArrayRecursively rp apiUrl accessToken
              = Some (map (\<lambda>u. request u accessToken) (chain_urls apiUrl pgs), Rejected e))
       \<and> (rp (request (last (chain_urls apiUrl pgs)) accessToken) = Some (Fulfilled apiResponse)
          \<and> (apiResponse = JUndefined \<or> apiResponse = JNull
               \<or> Get apiResponse ''d'' = Inr JUndefined \<or> Get apiResponse ''d'' = Inr JNull) \<longrightarrow>
            getArrayRecursively rp apiUrl accessToken
              = Some (map (\<lambda>u. request u accessToken) (chain_urls apiUrl pgs),
                      Rejected TypeError))"
proof (intro conjI impI)
  assume "rp (request (last (chain_urls apiUrl pgs)) accessToken) = Some (Rejected e)"
  then show "getArrayRecursively rp apiUrl accessToken
              = Some (map (\<lambda>u. request u accessToken) (chain_urls apiUrl pgs), Rejected e)"
    by (intro fetch_chain [OF assms] fetch_rejected)
next
  assume a: "rp (request (last (chain_urls apiUrl pgs)) accessToken) = Some (Fulfilled apiResponse)
          \<and> (apiResponse = JUndefined \<or> apiResponse = JNull
               \<or> Get apiResponse ''d'' = Inr JUndefined \<or> Get apiResponse ''d'' = Inr JNull)"
  then have "d_results apiResponse = Inl TypeError"
    by (intro d_results_throws) simp
  with a show "getArrayRecursively rp apiUrl accessToken
              = Some (map (\<lambda>u. request u accessToken) (chain_urls apiUrl pgs),
                      Rejected TypeError)"
    by (intro fetch_chain [OF assms] fetch_throws [where apiResponse = apiResponse]) simp_all
qed

theorem getArrayRecursively_failure_witness:
  "chain rp4 ''tok'' (JStr ''https://sp/items'')
     [(JArr [JNum 1, JNum 2] [], JStr ''https://sp/items?p=2'')]
   \<and> rp4 (request (JStr ''https://sp/items?p=2'') ''tok'')
       = Some (Rejected (StatusCodeError 503 (JStr ''busy'')))
   \<and> getArrayRecursively rp4 (JStr ''https://sp/items'') ''tok''
       = Some ([request (JStr ''https://sp/items'') ''tok'',
                request (JStr ''https://sp/items?p=2'') ''tok''],
               Rejected (StatusCodeError 503 (JStr ''busy'')))
   \<and> chain rp4 ''tok'' (JStr ''https://sp/other'') []
   \<and> rp4 (request (JStr ''https://sp/other'') ''tok'') = Some (Fulfilled JNull)
   \<and> getArrayRecursively rp4 (JStr ''https://sp/other'') ''tok''
       = Some ([request (JStr ''https://sp/other'') ''tok''], Rejected TypeError)"
proof -
  have c: "chain rp4 ''tok'' (JStr ''https://sp/items'')
     [(JArr [JNum 1, JNum 2] [], JStr ''https://sp/items?p=2'')]"
    by (simp add: page_def rp4_def request_def d_results_def d_next_def)
  have r: "rp4 (request (JStr ''https://sp/items?p=2'') ''tok'')
       = Some (Rejected (StatusCodeError 503 (JStr ''busy'')))"
    by (simp add: rp4_def request_def)
  have c': "chain rp4 ''tok'' (JStr ''https://sp/other'') []" by simp
  have r': "rp4 (request (JStr ''https://sp/other'') ''tok'') = Some (Fulfilled JNull)"
    by (simp add: rp4_def request_def)
  show ?thesis
    using c r c' r'
      getArrayRecursively_failure [OF c, where e = "StatusCodeError 503 (JStr ''busy'')"]
      getArrayRecursively_failure [OF c', where apiResponse = JNull]
    by simp
qed

text \<open>
  C9 as stated fails on an envelope that lacks an expected field: where \<open>d\<close> is there
  and \<open>results\<close> is not, nothing throws, and the fetch fulfils with the missing value as
  its one element.
\<close>

theorem getArrayRecursively_malformed_counterexample:
  "rp3 (request (JStr ''https://sp/items'') ''tok'') = Some (Fulfilled (JObj [(''d'', JObj [])]))
   \<and> getArrayRecursively rp3 (JStr ''https://sp/items'') ''tok''
       = Some ([request (JStr ''https://sp/items'') ''tok''], Fulfilled [JUndefined])"
  by (subst getArrayRecursively.simps)
     (simp add: rp3_def d_results_def d_next_def merge_parts_def)

section \<open>The credential cache\<close>

lemma getToken_pending:
  "tokenRequestPromise s = Some p \<Longrightarrow> state p = Pending
     \<Longrightarrow> getToken Date_parse cfg now s = Inr (p, s)"
  by (simp add: getToken_def expire_def)

lemma getTokens_pending:
  "tokenRequestPromise s = Some p \<Longrightarrow> state p = Pending
     \<Longrightarrow> getTokens Date_parse cfg nows s = Inr (replicate (length nows) p, s)"
  by (induction nows) (simp_all add: getToken_pending)

lemma getToken_empty:
  "tokenRequestPromise s = None \<Longrightarrow> getToken Date_parse cfg now s = Inr (acquire cfg s)"
  by (simp add: getToken_def expire_def)

text \<open>
  C2.  While the promise in the variable is pending, any number of \<open>getToken\<close> calls, at
  any clock readings, all return that one promise and leave the module as it was: no
  acquisition is issued.  From an empty variable, the first of several back-to-back calls
  issues one acquisition and the others return its promise: one acquisition in all.
\<close>

theorem getToken_single_flight:
  "(tokenRequestPromise s = Some p \<and> state p = Pending \<longrightarrow>
      getTokens Date_parse cfg nows s = Inr (replicate (length nows) p, s))
   \<and> (tokenRequestPromise s = None \<longrightarrow>
      getTokens Date_parse cfg (now # nows) s =
        Inr (replicate (Suc (length nows)) \<lparr>ident = length (issued s), state = Pending\<rparr>,
             \<lparr>tokenRequestPromise = Some \<lparr>ident = length (issued s), state = Pending\<rparr>,
              issued = issued s @ [acquireTokenWithUsernamePassword cfg]\<rparr>))"
proof (intro conjI impI)
  assume "tokenRequestPromise s = Some p \<and> state p = Pending"
  then show "getTokens Date_parse cfg nows s = Inr (replicate (length nows) p, s)"
    by (simp add: getTokens_pending)
next
  let ?p = "\<lparr>ident = length (issued s), state = Pending\<rparr>"
  let ?s = "\<lparr>tokenRequestPromise = Some ?p,
             issued = issued s @ [acquireTokenWithUsernamePassword cfg]\<rparr>"
  assume "tokenRequestPromise s = None"
  then have first: "getToken Date_parse cfg now s = Inr (?p, ?s)"
    by (simp add: getToken_empty acquire_def Let_def)
  have "getTokens Date_parse cfg nows ?s = Inr (replicate (length nows) ?p, ?s)"
    by (rule getTokens_pending) simp_all
  with first show
    "getTokens Date_parse cfg (now # nows) s = Inr (replicate (Suc (length nows)) ?p, ?s)"
    by simp
qed

theorem getToken_single_flight_witness:
  "getTokens (\<lambda>x. None) cfg0 [1000, 1001, 5000]
      \<lparr>tokenRequestPromise = Some \<lparr>ident = 0, state = Pending\<rparr>,
       issued = [acquireTokenWithUsernamePassword cfg0]\<rparr>
    = Inr ([\<lparr>ident = 0, state = Pending\<rparr>, \<lparr>ident = 0, state = Pending\<rparr>,
            \<lparr>ident = 0, state = Pending\<rparr>],
           \<lparr>tokenRequestPromise = Some \<lparr>ident = 0, state = Pending\<rparr>,
            issued = [acquireTokenWithUsernamePassword cfg0]\<rparr>)
   \<and> getTokens (\<lambda>x. None) cfg0 [1000, 1001] \<lparr>tokenRequestPromise = None, issued = []\<rparr>
    = Inr ([\<lparr>ident = 0, state = Pending\<rparr>, \<lparr>ident = 0, state = Pending\<rparr>],
           \<lparr>tokenRequestPromise = Some \<lparr>ident = 0, state = Pending\<rparr>,
            issued = [acquireTokenWithUsernamePassword cfg0]\<rparr>)"
  using getToken_single_flight
          [where s = "\<lparr>tokenRequestPromise = Some \<lparr>ident = 0, state = Pending\<rparr>,
                issued = [acquireTokenWithUsernamePassword cfg0]\<rparr>"
             and p = "\<lparr>ident = 0, state = Pending\<rparr>" and Date_parse = "\<lambda>x. None"
             and cfg = cfg0 and nows = "[1000, 1001, 5000]"]
        getToken_single_flight
          [where s = "\<lparr>tokenRequestPromise = None, issued = []\<rparr>"
             and Date_parse = "\<lambda>x. None" and cfg = cfg0 and now = 1000 and nows = "[1001]"]
  by (simp add: numeral_eq_Suc)

lemma getToken_fulfilled:
  "tokenRequestPromise s = Some p \<Longrightarrow> state p = Settled (Fulfilled v) \<Longrightarrow>
   Get v ''expiresOn'' = Inr expiresOn \<Longrightarrow>
     getToken Date_parse cfg now s =
       Inr (if (case Date_parse expiresOn of None \<Rightarrow> False | Some t \<Rightarrow> now > t + 30000)
            then acquire cfg s else (p, s))"
  by (simp add: getToken_def expire_def tokenExpired_def)

text \<open>
  C3.  With a fulfilled promise in the variable, \<open>getToken\<close> at clock reading \<open>now\<close>
  starts a new acquisition exactly when \<open>now > Date.parse(expiresOn) + 30000\<close>, and
  otherwise returns the cached promise and issues nothing.  A token that expired 40
  seconds ago is replaced; one that expired 10 seconds ago is returned.
\<close>

theorem getToken_expiry:
  assumes "tokenRequestPromise s = Some p"
    and "state p = Settled (Fulfilled v)"
    and "Get v ''expiresOn'' = Inr expiresOn"
  shows "getToken Date_parse cfg now s =
           Inr (if (case Date_parse expiresOn of None \<Rightarrow> False | Some t \<Rightarrow> now > t + 30000)
                then (\<lparr>ident = length (issued s), state = Pending\<rparr>,
                      \<lparr>tokenRequestPromise = Some \<lparr>ident = length (issued s), state = Pending\<rparr>,
                       issued = issued s @ [acquireTokenWithUsernamePassword cfg]\<rparr>)
                else (p, s))
       \<and> (Date_parse expiresOn = Some (now - 40000) \<longrightarrow>
            getToken Date_parse cfg now s =
              Inr (\<lparr>ident = length (issued s), state = Pending\<rparr>,
                   \<lparr>tokenRequestPromise = Some \<lparr>ident = length (issued s), state = Pending\<rparr>,
                    issued = issued s @ [acquireTokenWithUsernamePassword cfg]\<rparr>))
       \<and> (Date_parse expiresOn = Some (now - 10000) \<longrightarrow>
            getToken Date_parse cfg now s = Inr (p, s))"
  using assms by (simp add: getToken_fulfilled acquire_def Let_def)

theorem getToken_expiry_witness:
  "settle (Settled (Fulfilled token0)) (service0 Pending) = service0 (Settled (Fulfilled token0))
   \<and> getToken Date_parse0 cfg0 1466078440000 (service0 (Settled (Fulfilled token0)))
     = Inr (\<lparr>ident = 1, state = Pending\<rparr>, service1)
   \<and> getToken Date_parse0 cfg0 1466078410000 (service0 (Settled (Fulfilled token0)))
     = Inr (\<lparr>ident = 0, state = Settled (Fulfilled token0)\<rparr>,
            service0 (Settled (Fulfilled token0)))"
proof -
  have s: "tokenRequestPromise (service0 (Settled (Fulfilled token0)))
             = Some \<lparr>ident = 0, state = Settled (Fulfilled token0)\<rparr>"
    by (simp add: service0_def)
  have f: "state \<lparr>ident = 0, state = Settled (Fulfilled token0)\<rparr> = Settled (Fulfilled token0)"
    by simp
  have g: "Get token0 ''expiresOn'' = Inr (JStr ''2016-06-16T12:00:00.000Z'')"
    by (simp add: token0_def)
  have d: "Date_parse0 (JStr ''2016-06-16T12:00:00.000Z'') = Some 1466078400000"
    by (simp add: Date_parse0_def)
  show ?thesis
    using getToken_expiry [OF s f g, where Date_parse = Date_parse0 and now = 1466078440000
                                   and cfg = cfg0]
          getToken_expiry [OF s f g, where Date_parse = Date_parse0 and now = 1466078410000
                                   and cfg = cfg0] d
    by (simp add: service0_def service1_def settle_def)
qed

text \<open>
  C6.  With a rejected or a cancelled promise in the variable, \<open>getToken\<close> starts a new
  acquisition and returns its promise, a pending one, never the stale one.
\<close>

theorem getToken_after_failure:
  assumes "tokenRequestPromise s = Some p"
    and "(\<exists>e. state p = Settled (Rejected e)) \<or> state p = Cancelled"
  shows "getToken Date_parse cfg now s =
           Inr (\<lparr>ident = length (issued s), state = Pending\<rparr>,
                \<lparr>tokenRequestPromise = Some \<lparr>ident = length (issued s), state = Pending\<rparr>,
                 issued = issued s @ [acquireTokenWithUsernamePassword cfg]\<rparr>)
         \<and> \<lparr>ident = length (issued s), state = Pending\<rparr> \<noteq> p"
  using assms by (auto simp: getToken_def expire_def acquire_def Let_def)

theorem getToken_after_failure_witness:
  "settle (Settled (Rejected (RequestError ''auth''))) (service0 Pending)
     = service0 (Settled (Rejected (RequestError ''auth'')))
   \<and> settle Cancelled (service0 Pending) = service0 Cancelled
   \<and> getToken Date_parse0 cfg0 1466078400000 (service0 (Settled (Rejected (RequestError ''auth''))))
     = Inr (\<lparr>ident = 1, state = Pending\<rparr>, service1)
   \<and> getToken Date_parse0 cfg0 1466078400000 (service0 Cancelled)
     = Inr (\<lparr>ident = 1, state = Pending\<rparr>, service1)"
proof -
  have r: "tokenRequestPromise (service0 (Settled (Rejected (RequestError ''auth''))))
             = Some \<lparr>ident = 0, state = Settled (Rejected (RequestError ''auth''))\<rparr>"
    by (simp add: service0_def)
  have r': "(\<exists>e. state \<lparr>ident = 0, state = Settled (Rejected (RequestError ''auth''))\<rparr>
                   = Settled (Rejected e))
            \<or> state \<lparr>ident = 0, state = Settled (Rejected (RequestError ''auth''))\<rparr> = Cancelled"
    by simp
  have c: "tokenRequestPromise (service0 Cancelled) = Some \<lparr>ident = 0, state = Cancelled\<rparr>"
    by (simp add: service0_def)
  have c': "(\<exists>e. state \<lparr>ident = 0, state = Cancelled\<rparr> = Settled (Rejected e))
            \<or> state \<lparr>ident = 0, state = Cancelled\<rparr> = Cancelled"
    by simp
  show ?thesis
    using getToken_after_failure [OF r r', where Date_parse = Date_parse0 and cfg = cfg0
                                            and now = 1466078400000]
          getToken_after_failure [OF c c', where Date_parse = Date_parse0 and cfg = cfg0
                                            and now = 1466078400000]
    by (simp add: service0_def service1_def settle_def)
qed

text \<open>
  C7.  Whatever the module holds, \<open>dropToken\<close> empties the variable and issues nothing,
  and the \<open>getToken\<close> that follows, at any clock reading, issues one new acquisition
  and returns its pending promise.
\<close>

theorem dropToken_then_getToken:
  "tokenRequestPromise (dropToken s) = None
   \<and> issued (dropToken s) = issued s
   \<and> getToken Date_parse cfg now (dropToken s) =
       Inr (\<lparr>ident = length (issued s), state = Pending\<rparr>,
            \<lparr>tokenRequestPromise = Some \<lparr>ident = length (issued s), state = Pending\<rparr>,
             issued = issued s @ [acquireTokenWithUsernamePassword cfg]\<rparr>)"
  by (simp add: dropToken_def getToken_def expire_def acquire_def Let_def)

theorem dropToken_then_getToken_witness:
  "tokenRequestPromise (dropToken (service0 (Settled (Fulfilled token0)))) = None
   \<and> getToken Date_parse0 cfg0 1466078400000 (dropToken (service0 (Settled (Fulfilled token0))))
     = Inr (\<lparr>ident = 1, state = Pending\<rparr>, service1)"
  using dropToken_then_getToken
          [where s = "service0 (Settled (Fulfilled token0))" and Date_parse = Date_parse0
             and cfg = cfg0 and now = 1466078400000]
  by (simp add: service0_def service1_def)

section \<open>Folders and files: one request\<close>

text \<open>
  C10.  \<open>getSubfolders\<close> and \<open>getFiles\<close> issue exactly one request, whatever the input
  and the answer.  Their result depends on the transport at that request only, so
  nothing a continuation pointer leads to can reach it; when the answer carries
  \<open>d.results\<close>, that value is the result, even beside a \<open>__next\<close>.
\<close>

theorem callApi_single_request:
  "length (fst (getSubfolders rp resourceUrl siteName folderPath accessToken)) = 1
   \<and> length (fst (getFiles rp resourceUrl siteName folderPath accessToken)) = 1
   \<and> (rp' (hd (fst (getSubfolders rp resourceUrl siteName folderPath accessToken)))
        = rp (hd (fst (getSubfolders rp resourceUrl siteName folderPath accessToken))) \<longrightarrow>
      getSubfolders rp' resourceUrl siteName folderPath accessToken
        = getSubfolders rp resourceUrl siteName folderPath accessToken)
   \<and> (rp' (hd (fst (getFiles rp resourceUrl siteName folderPath accessToken)))
        = rp (hd (fst (getFiles rp resourceUrl siteName folderPath accessToken))) \<longrightarrow>
      getFiles rp' resourceUrl siteName folderPath accessToken
        = getFiles rp resourceUrl siteName folderPath accessToken)
   \<and> (rp (hd (fst (getSubfolders rp resourceUrl siteName folderPath accessToken)))
          = Some (Fulfilled apiResponse) \<and> d_results apiResponse = Inr results \<longrightarrow>
      snd (getSubfolders rp resourceUrl siteName folderPath accessToken)
        = Some (Fulfilled results))
   \<and> (rp (hd (fst (getFiles rp resourceUrl siteName folderPath accessToken)))
          = Some (Fulfilled apiResponse) \<and> d_results apiResponse = Inr results \<longrightarrow>
      snd (getFiles rp resourceUrl siteName folderPath accessToken)
        = Some (Fulfilled results))"
  by (simp add: getSubfolders_def getFiles_def callApi_def)

lemma files_url_eq:
  "''https://sp'' @ ''/sites/'' @ ''s'' @ ''/_api/Web/GetFolderByServerRelativeUrl(''
     @ [CHR 0x27] @ folder_path ''s'' ''Docs'' @ [CHR 0x27] @ '')/Files'' = files_url"
  by (simp add: files_url_def folder_path_def)

lemma rp5_first:
  "rp5 (request (JStr files_url) ''tok'')
     = Some (Fulfilled (JObj [(''d'', JObj [(''results'', JArr [JStr ''a.txt'', JStr ''b.txt''] []),
                                            (''__next'', JStr ''https://sp/more'')])]))"
  by (simp add: rp5_def request_def)

lemma rp5_first_results:
  "d_results (JObj [(''d'', JObj [(''results'', JArr [JStr ''a.txt'', JStr ''b.txt''] []),
                                  (''__next'', JStr ''https://sp/more'')])])
     = Inr (JArr [JStr ''a.txt'', JStr ''b.txt''] [])"
  by (simp add: d_results_def)

lemma rp5_pages:
  "getArrayRecursively rp5 (JStr files_url) ''tok''
     = Some ([request (JStr files_url) ''tok'', request (JStr ''https://sp/more'') ''tok''],
             Fulfilled [JStr ''a.txt'', JStr ''b.txt'', JStr ''c.txt''])"
proof -
  have p1: "page rp5 ''tok'' (JStr files_url) (JArr [JStr ''a.txt'', JStr ''b.txt''] [])
              (JStr ''https://sp/more'')"
    by (simp add: page_def rp5_first rp5_first_results d_next_def)
  have p2: "page rp5 ''tok'' (JStr ''https://sp/more'') (JArr [JStr ''c.txt''] []) JUndefined"
    by (simp add: page_def rp5_def request_def files_url_def d_results_def d_next_def)
  show ?thesis
    using fetch_next [OF p1] fetch_last [OF p2] by simp
qed

text \<open>
  The folder of the fixture has three files on two pages: \<open>getFiles\<close> gives the two of
  the first page, the page fetcher on the same address gives the three.
\<close>

theorem callApi_single_request_witness:
  "rp5 (hd (fst (getFiles rp5 ''https://sp'' ''s'' ''Docs'' ''tok'')))
     = Some (Fulfilled (JObj [(''d'', JObj [(''results'', JArr [JStr ''a.txt'', JStr ''b.txt''] []),
                                            (''__next'', JStr ''https://sp/more'')])]))
   \<and> getFiles rp5 ''https://sp'' ''s'' ''Docs'' ''tok''
       = ([request (JStr files_url) ''tok''],
          Some (Fulfilled (JArr [JStr ''a.txt'', JStr ''b.txt''] [])))
   \<and> getArrayRecursively rp5 (JStr files_url) ''tok''
       = Some ([request (JStr files_url) ''tok'', request (JStr ''https://sp/more'') ''tok''],
               Fulfilled [JStr ''a.txt'', JStr ''b.txt'', JStr ''c.txt''])"
proof -
  have u: "fst (getFiles rp5 ''https://sp'' ''s'' ''Docs'' ''tok'')
             = [request (JStr files_url) ''tok'']"
    by (simp add: getFiles_def callApi_def files_url_eq del: append.simps)
  have h: "rp5 (hd (fst (getFiles rp5 ''https://sp'' ''s'' ''Docs'' ''tok'')))
     = Some (Fulfilled (JObj [(''d'', JObj [(''results'', JArr [JStr ''a.txt'', JStr ''b.txt''] []),
                                            (''__next'', JStr ''https://sp/more'')])]))"
    by (simp only: u list.sel rp5_first)
  have s: "snd (getFiles rp5 ''https://sp'' ''s'' ''Docs'' ''tok'')
             = Some (Fulfilled (JArr [JStr ''a.txt'', JStr ''b.txt''] []))"
    using h rp5_first_results
      callApi_single_request
        [where rp = rp5 and rp' = rp5 and resourceUrl = "''https://sp''" and siteName = "''s''"
           and folderPath = "''Docs''" and accessToken = "''tok''"
           and apiResponse = "JObj [(''d'', JObj [(''results'', JArr [JStr ''a.txt'', JStr ''b.txt''] []),
                                                  (''__next'', JStr ''https://sp/more'')])]"
           and results = "JArr [JStr ''a.txt'', JStr ''b.txt''] []"]
    by blast
  have g: "getFiles rp5 ''https://sp'' ''s'' ''Docs'' ''tok''
       = ([request (JStr files_url) ''tok''],
          Some (Fulfilled (JArr [JStr ''a.txt'', JStr ''b.txt''] [])))"
    using u s by (simp only: prod_eq_iff fst_conv snd_conv)
  from h g rp5_pages show ?thesis by (intro conjI)
qed

section \<open>The fan-out over the list items\<close>

lemma map_of_update_prop: "map_of (update_prop k x ps) = (map_of ps)(k \<mapsto> x)"
  by (induction ps) (auto simp: fun_eq_iff)

lemma Get_update_prop:
  "Get (JObj (update_prop k x ps)) k' = (if k' = k then Inr x else Get (JObj ps) k')"
  by (simp add: map_of_update_prop)

lemma map_throw_Inr: "(map_throw f xs = Inr ys) = (map f xs = map Inr ys)"
proof (induction xs arbitrary: ys)
  case Nil
  then show ?case by auto
next
  case (Cons x xs)
  show ?case
  proof (cases "f x")
    case (Inl e)
    then show ?thesis by (cases ys) auto
  next
    case (Inr y)
    show ?thesis
    proof (cases "map_throw f xs")
      case (Inl e)
      with Inr Cons.IH show ?thesis by (cases ys) auto
    next
      case r: (Inr zs)
      with Inr Cons.IH [of zs] Cons.IH show ?thesis by (cases ys) auto
    qed
  qed
qed

text \<open>
  The assignments of a schedule commute: each one writes its own item, so the list at
  the end holds the target of every index the schedule names and the old item elsewhere.
\<close>

lemma settle_all_fulfilled:
  assumes "distinct order"
    and "\<forall>i \<in> set order. i < length xs \<and> i < length subs
           \<and> subs ! i = Some (Fulfilled (attss ! i))
           \<and> Put (xs ! i) ''AttachmentFiles'' (JArr (attss ! i) []) = Inr (tgt ! i)"
  shows "settle_all order subs xs
           = Inr (map (\<lambda>j. if j \<in> set order then tgt ! j else xs ! j) [0..<length xs])"
  using assms
proof (induction order arbitrary: xs)
  case Nil
  then show ?case by (simp add: map_nth)
next
  case (Cons i order)
  let ?xs = "xs[i := tgt ! i]"
  from Cons.prems have i: "i < length xs" "i < length subs"
    "subs ! i = Some (Fulfilled (attss ! i))"
    "Put (xs ! i) ''AttachmentFiles'' (JArr (attss ! i) []) = Inr (tgt ! i)"
    and ni: "i \<notin> set order" and d: "distinct order"
    by auto
  have "\<forall>j \<in> set order. j < length ?xs \<and> j < length subs
           \<and> subs ! j = Some (Fulfilled (attss ! j))
           \<and> Put (?xs ! j) ''AttachmentFiles'' (JArr (attss ! j) []) = Inr (tgt ! j)"
    using Cons.prems ni by (auto simp: nth_list_update)
  from Cons.IH [OF d this]
  have "settle_all order subs ?xs
          = Inr (map (\<lambda>j. if j \<in> set order then tgt ! j else ?xs ! j) [0..<length xs])"
    by simp
  also have "map (\<lambda>j. if j \<in> set order then tgt ! j else ?xs ! j) [0..<length xs]
           = map (\<lambda>j. if j \<in> set (i # order) then tgt ! j else xs ! j) [0..<length xs]"
    using i(1) ni by (auto simp: nth_list_update)
  finally show ?case using i by simp
qed

lemma settle_all_rejected:
  "i \<in> set order \<Longrightarrow> i < length xs \<Longrightarrow> i < length subs \<Longrightarrow> subs ! i = Some (Rejected e)
     \<Longrightarrow> \<exists>e'. settle_all order subs xs = Inl e'"
proof (induction order arbitrary: xs)
  case Nil
  then show ?case by simp
next
  case (Cons j order)
  show ?case
  proof (cases "j = i")
    case True
    with Cons.prems show ?thesis by simp
  next
    case False
    with Cons.prems have "i \<in> set order" by simp
    from Cons.IH [OF this _ Cons.prems(3,4)] Cons.prems(2)
    have ih: "\<exists>e'. settle_all order subs ys = Inl e'" if "length ys = length xs" for ys
      using that by simp
    show ?thesis
      using ih [of xs] ih [of "xs[j := y]" for y]
      by (auto split: option.splits settled.splits sum.splits)
  qed
qed

lemma sub_fetches:
  "list_all2 (\<lambda>ps atts. f (JObj ps) = Inr (Some (Fulfilled atts))) pss attss \<Longrightarrow>
     map f (map JObj pss) = map Inr (map (\<lambda>atts. Some (Fulfilled atts)) attss)"
  by (induction rule: list_all2_induct) simp_all

lemma settle_all_records:
  assumes "distinct order" and "set order = {..<length pss}" and "length attss = length pss"
  shows "settle_all order (map (\<lambda>atts. Some (Fulfilled atts)) attss) (map JObj pss)
           = Inr (map2 (\<lambda>ps atts. JObj (update_prop ''AttachmentFiles'' (JArr atts []) ps))
                    pss attss)"
proof -
  let ?subs = "map (\<lambda>atts. Some (Fulfilled atts)) attss"
  let ?tgt = "map2 (\<lambda>ps atts. JObj (update_prop ''AttachmentFiles'' (JArr atts []) ps)) pss attss"
  have "\<forall>i \<in> set order. i < length (map JObj pss) \<and> i < length ?subs
           \<and> ?subs ! i = Some (Fulfilled (attss ! i))
           \<and> Put (map JObj pss ! i) ''AttachmentFiles'' (JArr (attss ! i) []) = Inr (?tgt ! i)"
    using assms(2,3) by simp
  from settle_all_fulfilled [OF assms(1) this]
  have "settle_all order ?subs (map JObj pss)
          = Inr (map (\<lambda>j. if j \<in> set order then ?tgt ! j else map JObj pss ! j)
                   [0..<length pss])"
    by simp
  also have "map (\<lambda>j. if j \<in> set order then ?tgt ! j else map JObj pss ! j) [0..<length pss]
               = map (\<lambda>j. ?tgt ! j) [0..<length ?tgt]"
    using assms(2,3) by simp
  also have "\<dots> = ?tgt" by (rule map_nth)
  finally show ?thesis .
qed

text \<open>
  C4.  The list holds \<open>M\<close> records and the attachment fetch of record \<open>i\<close> fulfils with the
  records \<open>attss ! i\<close>.  Then, however the \<open>Id\<close>s print and in whatever order the fetches
  settle,
  \<open>getListWithAttachmentFiles\<close> fulfils with the same \<open>M\<close> records in the same order,
  record \<open>i\<close> now with \<open>AttachmentFiles\<close> equal to exactly \<open>attss ! i\<close> and with every
  other property as it was.
\<close>

theorem getListWithAttachmentFiles_attaches:
  assumes "getList rp resourceUrl siteName listGuid accessToken
             = Some (reqs, Fulfilled (map JObj pss))"
    and "list_all2 (\<lambda>ps atts. subFetch rp ToString resourceUrl siteName listGuid accessToken (JObj ps)
                                  = Inr (Some (Fulfilled atts))) pss attss"
    and "distinct order" and "set order = {..<length pss}"
  shows "getListWithAttachmentFiles rp ToString order resourceUrl siteName listGuid accessToken
           = Some (Fulfilled (map2 (\<lambda>ps atts.
                 JObj (update_prop ''AttachmentFiles'' (JArr atts []) ps)) pss attss))
         \<and> (\<forall>ps atts k. Get (JObj (update_prop ''AttachmentFiles'' (JArr atts []) ps)) k
               = (if k = ''AttachmentFiles'' then Inr (JArr atts []) else Get (JObj ps) k))"
proof
  let ?f = "subFetch rp ToString resourceUrl siteName listGuid accessToken"
  let ?subs = "map (\<lambda>atts. Some (Fulfilled atts)) attss"
  from assms(2) have len: "length attss = length pss"
    by (simp add: list_all2_lengthD)
  from assms(2) have "map ?f (map JObj pss) = map Inr ?subs"
    by (rule sub_fetches)
  then have mt: "map_throw ?f (map JObj pss) = Inr ?subs"
    by (simp only: map_throw_Inr)
  have sa: "settle_all order ?subs (map JObj pss)
          = Inr (map2 (\<lambda>ps atts. JObj (update_prop ''AttachmentFiles'' (JArr atts []) ps))
                   pss attss)"
    by (rule settle_all_records [OF assms(3,4) len])
  have "None \<notin> set ?subs" by auto
  with assms(1) mt sa show
    "getListWithAttachmentFiles rp ToString order resourceUrl siteName listGuid accessToken
          = Some (Fulfilled (map2 (\<lambda>ps atts.
                 JObj (update_prop ''AttachmentFiles'' (JArr atts []) ps)) pss attss))"
    by (simp add: getListWithAttachmentFiles_def)
  show "\<forall>ps atts k. Get (JObj (update_prop ''AttachmentFiles'' (JArr atts []) ps)) k
               = (if k = ''AttachmentFiles'' then Inr (JArr atts []) else Get (JObj ps) k)"
    by (simp only: Get_update_prop) simp
qed

lemma rp6_list:
  "getList rp6 ''https://sp'' ''s'' ''g'' ''tok''
     = Some ([request (JStr items_url) ''tok'', request (JStr ''https://sp/next'') ''tok''],
             Fulfilled (map JObj [[(''Id'', JNum 1), (''Title'', JStr ''one'')],
                                  [(''Id'', JNum 2), (''Title'', JStr ''two'')],
                                  [(''Id'', JNum 3), (''Title'', JStr ''three'')]]))"
  by code_simp

lemma rp6_attachments:
  "list_all2 (\<lambda>ps atts. subFetch rp6 ToString0 ''https://sp'' ''s'' ''g'' ''tok'' (JObj ps)
                           = Inr (Some (Fulfilled atts)))
     [[(''Id'', JNum 1), (''Title'', JStr ''one'')],
      [(''Id'', JNum 2), (''Title'', JStr ''two'')],
      [(''Id'', JNum 3), (''Title'', JStr ''three'')]]
     [[JStr ''a.pdf'', JStr ''b.pdf''], [], [JStr ''c.pdf'']]"
  by code_simp

theorem getListWithAttachmentFiles_attaches_witness:
  "getListWithAttachmentFiles rp6 ToString0 [2, 0, 1] ''https://sp'' ''s'' ''g'' ''tok''
     = Some (Fulfilled
         [JObj [(''Id'', JNum 1), (''Title'', JStr ''one''),
                (''AttachmentFiles'', JArr [JStr ''a.pdf'', JStr ''b.pdf''] [])],
          JObj [(''Id'', JNum 2), (''Title'', JStr ''two''),
                (''AttachmentFiles'', JArr [] [])],
          JObj [(''Id'', JNum 3), (''Title'', JStr ''three''),
                (''AttachmentFiles'', JArr [JStr ''c.pdf''] [])]])"
proof -
  have d: "distinct [2, 0, 1 :: nat]" by simp
  have o: "set [2, 0, 1 :: nat]
             = {..<length [[(''Id'', JNum 1), (''Title'', JStr ''one'')],
                            [(''Id'', JNum 2), (''Title'', JStr ''two'')],
                            [(''Id'', JNum 3), (''Title'', JStr ''three'')]]}"
    by auto
  show ?thesis
    using getListWithAttachmentFiles_attaches [OF rp6_list rp6_attachments d o]
    by simp
qed

text \<open>
  C5.  When the attachment fetch of one item rejects, \<open>getListWithAttachmentFiles\<close>
  rejects, however the \<open>Id\<close>s print, whatever the other fetches do and in whatever
  order they settle; a rejection carries a reason and no list.
\<close>

theorem getListWithAttachmentFiles_fails:
  assumes "getList rp resourceUrl siteName listGuid accessToken
             = Some (reqs, Fulfilled sharepointList)"
    and "i < length sharepointList"
    and "subFetch rp ToString resourceUrl siteName listGuid accessToken (sharepointList ! i)
           = Inr (Some (Rejected e))"
    and "i \<in> set order"
  shows "\<exists>e'. getListWithAttachmentFiles rp ToString order resourceUrl siteName listGuid accessToken
                = Some (Rejected e')"
proof (cases "map_throw (subFetch rp ToString resourceUrl siteName listGuid accessToken) sharepointList")
  case (Inl e')
  with assms(1) show ?thesis by (simp add: getListWithAttachmentFiles_def)
next
  case (Inr subs)
  then have m: "map (subFetch rp ToString resourceUrl siteName listGuid accessToken) sharepointList
                  = map Inr subs"
    by (simp add: map_throw_Inr)
  then have len: "length subs = length sharepointList"
    by (metis length_map)
  from m assms(2) have "subFetch rp ToString resourceUrl siteName listGuid accessToken (sharepointList ! i)
                          = Inr (subs ! i)"
    by (metis len nth_map)
  with assms(3) have "subs ! i = Some (Rejected e)" by simp
  from settle_all_rejected [OF assms(4) assms(2) _ this] len assms(2)
  obtain e' where "settle_all order subs sharepointList = Inl e'" by auto
  with assms(1) Inr show ?thesis by (simp add: getListWithAttachmentFiles_def)
qed

lemma rp7_list:
  "getList rp7 ''https://sp'' ''s'' ''g'' ''tok''
     = Some ([request (JStr items_url) ''tok'', request (JStr ''https://sp/next'') ''tok''],
             Fulfilled [JObj [(''Id'', JNum 1), (''Title'', JStr ''one'')],
                        JObj [(''Id'', JNum 2), (''Title'', JStr ''two'')],
                        JObj [(''Id'', JNum 3), (''Title'', JStr ''three'')]])"
  by code_simp

lemma rp7_second:
  "subFetch rp7 ToString0 ''https://sp'' ''s'' ''g'' ''tok''
     ([JObj [(''Id'', JNum 1), (''Title'', JStr ''one'')],
       JObj [(''Id'', JNum 2), (''Title'', JStr ''two'')],
       JObj [(''Id'', JNum 3), (''Title'', JStr ''three'')]] ! 1)
     = Inr (Some (Rejected (RequestError ''ECONNRESET'')))"
  by code_simp

theorem getListWithAttachmentFiles_fails_witness:
  "\<exists>e'. getListWithAttachmentFiles rp7 ToString0 [0, 2, 1] ''https://sp'' ''s'' ''g'' ''tok''
           = Some (Rejected e')"
proof -
  have i: "1 < length [JObj [(''Id'', JNum 1), (''Title'', JStr ''one'')],
                       JObj [(''Id'', JNum 2), (''Title'', JStr ''two'')],
                       JObj [(''Id'', JNum 3), (''Title'', JStr ''three'')]]"
    by simp
  have o: "1 \<in> set [0, 2, 1 :: nat]" by simp
  show ?thesis
    by (rule getListWithAttachmentFiles_fails [OF rp7_list i rp7_second o])
qed

end
